theory Spec2Isabelle
  imports Complex_Main "HOL-Library.Char_ord" "HOL-Library.List_Lexorder"
begin

section \<open>Shipping interval buckets (enhanced\_sales\_analysis.py)\<close>

text \<open>
  \<^verbatim>\<open>EnhancedSalesAnalysis._prepare_data\<close> computes
  \<^verbatim>\<open>shipping_days = (ship_date - order_date).dt.days\<close>, a whole number of days that is
  missing when one of the two dates is missing, and labels it with
  \<^verbatim>\<open>pd.cut(shipping_days, bins=[0, 7, 30, float('inf')], labels=[...])\<close>.
  The call passes neither \<^verbatim>\<open>right\<close> nor \<^verbatim>\<open>include_lowest\<close>, so the library
  defaults apply: every bin is open on the left and closed on the right, the lowest edge
  is not included, and a value in no bin (or a missing value) gets the missing label.
\<close>

datatype interval_label = Within_7_days | Within_30_days | After_30_days

definition shipping_interval :: "int \<Rightarrow> interval_label option" where
  "shipping_interval d =
     (if 0 < d \<and> d \<le> 7 then Some Within_7_days
      else if 7 < d \<and> d \<le> 30 then Some Within_30_days
      else if 30 < d then Some After_30_days
      else None)"

definition shipping_interval_column :: "int option list \<Rightarrow> interval_label option list" where
  "shipping_interval_column days =
     map (\<lambda>d. case d of None \<Rightarrow> None | Some v \<Rightarrow> shipping_interval v) days"

section \<open>Floating-point values of a column\<close>

text \<open>
  The numeric columns are float64 series. The claims turn on what a division by zero and
  a missing value give, so a value is a finite number, one of the two infinities, or NaN
  (which is also how a missing entry of a float column is stored). The arithmetic follows
  IEEE 754 on these four cases: a nonzero number divided by zero is an infinity, zero
  divided by zero is NaN, a finite number divided by an infinity is zero, NaN propagates,
  and every comparison with NaN is false. Rounding of finite results is not modelled
  (finite values are exact rationals), and there is one zero: a negative zero is
  identified with zero.
\<close>

datatype fl = Fin rat | PInf | NInf | NaN

datatype py_error = ValueError

definition inf_of_sign :: "rat \<Rightarrow> fl" where
  "inf_of_sign s = (if 0 < s then PInf else if s < 0 then NInf else NaN)"

fun fneg :: "fl \<Rightarrow> fl" where
  "fneg (Fin a) = Fin (- a)"
| "fneg PInf = NInf"
| "fneg NInf = PInf"
| "fneg NaN = NaN"

fun fadd :: "fl \<Rightarrow> fl \<Rightarrow> fl" where
  "fadd (Fin a) (Fin b) = Fin (a + b)"
| "fadd (Fin a) PInf = PInf"
| "fadd (Fin a) NInf = NInf"
| "fadd PInf (Fin b) = PInf"
| "fadd PInf PInf = PInf"
| "fadd NInf (Fin b) = NInf"
| "fadd NInf NInf = NInf"
| "fadd _ _ = NaN"

definition fsub :: "fl \<Rightarrow> fl \<Rightarrow> fl" where
  "fsub a b = fadd a (fneg b)"

fun fmul :: "fl \<Rightarrow> fl \<Rightarrow> fl" where
  "fmul (Fin a) (Fin b) = Fin (a * b)"
| "fmul (Fin a) PInf = inf_of_sign a"
| "fmul (Fin a) NInf = inf_of_sign (- a)"
| "fmul PInf (Fin b) = inf_of_sign b"
| "fmul NInf (Fin b) = inf_of_sign (- b)"
| "fmul PInf PInf = PInf"
| "fmul PInf NInf = NInf"
| "fmul NInf PInf = NInf"
| "fmul NInf NInf = PInf"
| "fmul _ _ = NaN"

fun fdiv :: "fl \<Rightarrow> fl \<Rightarrow> fl" where
  "fdiv (Fin a) (Fin b) = (if b = 0 then inf_of_sign a else Fin (a / b))"
| "fdiv (Fin a) PInf = Fin 0"
| "fdiv (Fin a) NInf = Fin 0"
| "fdiv PInf (Fin b) = (if 0 \<le> b then PInf else NInf)"
| "fdiv NInf (Fin b) = (if 0 \<le> b then NInf else PInf)"
| "fdiv _ _ = NaN"

fun fless :: "fl \<Rightarrow> fl \<Rightarrow> bool" where
  "fless (Fin a) (Fin b) = (a < b)"
| "fless (Fin a) PInf = True"
| "fless NInf (Fin b) = True"
| "fless NInf PInf = True"
| "fless _ _ = False"

definition fsum :: "fl list \<Rightarrow> fl" where
  "fsum xs = foldr fadd xs (Fin 0)"

text \<open>
  \<^verbatim>\<open>round(2)\<close> rounds a finite value to two decimals, halves to the even neighbour, and
  leaves an infinity or NaN as it is.
\<close>

definition rint :: "rat \<Rightarrow> int" where
  "rint y =
     (let f = \<lfloor>y\<rfloor>; d = y - of_int f in
      if d < 1 / 2 then f
      else if 1 / 2 < d then f + 1
      else if even f then f else f + 1)"

definition round2 :: "rat \<Rightarrow> rat" where
  "round2 x = of_int (rint (x * 100)) / 100"

fun fround2 :: "fl \<Rightarrow> fl" where
  "fround2 (Fin x) = Fin (round2 x)"
| "fround2 v = v"

section \<open>Derived stock metrics (stock\_dashboard.py)\<close>

text \<open>
  The library operations \<^verbatim>\<open>calculate_metrics\<close> applies to the price column of one
  ticker: \<^verbatim>\<open>shift\<close>, \<^verbatim>\<open>pct_change\<close> (the series divided by its shift, minus one),
  \<^verbatim>\<open>diff\<close>, \<^verbatim>\<open>where\<close>, and \<^verbatim>\<open>rolling(window).mean()\<close>, whose \<^verbatim>\<open>min_periods\<close>
  defaults to the window: the mean of the non-missing entries among the last
  \<^verbatim>\<open>window\<close> rows, and NaN when there are fewer than \<^verbatim>\<open>window\<close> of them.
\<close>

definition shift :: "fl list \<Rightarrow> fl list" where
  "shift xs = (if xs = [] then [] else NaN # butlast xs)"

definition pct_change :: "fl list \<Rightarrow> fl list" where
  "pct_change xs = map2 (\<lambda>x s. fsub (fdiv x s) (Fin 1)) xs (shift xs)"

definition diff :: "fl list \<Rightarrow> fl list" where
  "diff xs = map2 fsub xs (shift xs)"

definition where_else :: "bool list \<Rightarrow> fl \<Rightarrow> fl list \<Rightarrow> fl list" where
  "where_else cond other xs = map2 (\<lambda>c x. if c then x else other) cond xs"

definition rolling_window :: "nat \<Rightarrow> fl list \<Rightarrow> nat \<Rightarrow> fl list" where
  "rolling_window window xs i = drop (i + 1 - window) (take (i + 1) xs)"

definition rolling_mean :: "nat \<Rightarrow> fl list \<Rightarrow> fl list" where
  "rolling_mean window xs =
     map (\<lambda>i. let obs = filter (\<lambda>x. x \<noteq> NaN) (rolling_window window xs i) in
               if length obs < window then NaN
               else fdiv (fsum obs) (Fin (of_nat (length obs))))
         [0..<length xs]"

text \<open>
  The columns \<^verbatim>\<open>calculate_metrics\<close> derives from the price column of one ticker's
  rows, already sorted by date. The prices are valid numbers, so they enter as finite
  values.
\<close>

definition daily_return_series :: "rat list \<Rightarrow> fl list" where
  "daily_return_series prices = map (\<lambda>x. fmul x (Fin 100)) (pct_change (map Fin prices))"

definition ma_series :: "nat \<Rightarrow> rat list \<Rightarrow> fl list" where
  "ma_series window prices = rolling_mean window (map Fin prices)"

definition gain_series :: "rat list \<Rightarrow> fl list" where
  "gain_series prices =
     (let delta = diff (map Fin prices) in
      where_else (map (\<lambda>d. fless (Fin 0) d) delta) (Fin 0) delta)"

definition loss_series :: "rat list \<Rightarrow> fl list" where
  "loss_series prices =
     (let delta = diff (map Fin prices) in
      map fneg (where_else (map (\<lambda>d. fless d (Fin 0)) delta) (Fin 0) delta))"

definition rsi_series :: "rat list \<Rightarrow> fl list" where
  "rsi_series prices =
     (let avg_gain = rolling_mean 14 (gain_series prices);
          avg_loss = rolling_mean 14 (loss_series prices);
          rs = map2 fdiv avg_gain avg_loss
      in map (\<lambda>r. fsub (Fin 100) (fdiv (Fin 100) (fadd (Fin 1) r))) rs)"

text \<open>
  The table: a row has a ticker, a date and the price of the chosen price column; the
  result adds the four derived columns. \<^verbatim>\<open>groupby('Ticker')\<close> visits the tickers in
  ascending order, each with its rows in table order; the rows of a group are sorted by
  date (rows of equal date keep their order here; the library leaves their order to its
  sorting routine). \<^verbatim>\<open>pd.concat\<close> of an empty list of groups raises ValueError.
\<close>

record stock_row =
  Ticker :: string
  Date :: int
  Price :: rat

record metric_row = stock_row +
  Daily_Return :: fl
  MA20 :: fl
  MA50 :: fl
  RSI :: fl

definition group_metrics :: "stock_row list \<Rightarrow> metric_row list" where
  "group_metrics grp =
     (let group = sort_key Date grp;
          prices = map Price group
      in map (\<lambda>(r, d, a, b, s).
                \<lparr>Ticker = Ticker r, Date = Date r, Price = Price r,
                 Daily_Return = d, MA20 = a, MA50 = b, RSI = s\<rparr>)
             (zip group (zip (daily_return_series prices) (zip (ma_series 20 prices)
               (zip (ma_series 50 prices) (rsi_series prices))))))"

definition ticker_groups :: "stock_row list \<Rightarrow> (string \<times> stock_row list) list" where
  "ticker_groups dataframe =
     map (\<lambda>t. (t, filter (\<lambda>r. Ticker r = t) dataframe))
         (sort (remdups (map Ticker dataframe)))"

definition calculate_metrics :: "stock_row list \<Rightarrow> py_error + metric_row list" where
  "calculate_metrics dataframe =
     (let results = map (\<lambda>(ticker, group). group_metrics group) (ticker_groups dataframe)
      in if results = [] then Inl ValueError else Inr (concat results))"

text \<open>
  The quantities the specification names for the RSI, written from its words for
  comparison with the code: the gain of a row is its rise over the previous row, or zero
  (also at the first row, which has no previous row); the loss is its fall, or zero; the
  average gain and loss at row \<open>i\<close> are the means over the fourteen rows ending at \<open>i\<close>.
\<close>

definition spec_gain :: "rat list \<Rightarrow> nat \<Rightarrow> rat" where
  "spec_gain ps j = (if 0 < j \<and> ps ! (j - 1) < ps ! j then ps ! j - ps ! (j - 1) else 0)"

definition spec_loss :: "rat list \<Rightarrow> nat \<Rightarrow> rat" where
  "spec_loss ps j = (if 0 < j \<and> ps ! j < ps ! (j - 1) then ps ! (j - 1) - ps ! j else 0)"

definition spec_avg_gain :: "rat list \<Rightarrow> nat \<Rightarrow> rat" where
  "spec_avg_gain ps i = sum_list (map (spec_gain ps) [i - 13..<Suc i]) / 14"

definition spec_avg_loss :: "rat list \<Rightarrow> nat \<Rightarrow> rat" where
  "spec_avg_loss ps i = sum_list (map (spec_loss ps) [i - 13..<Suc i]) / 14"

section \<open>Campaign lift (sales\_analysis.py)\<close>

text \<open>
  \<^verbatim>\<open>marketing_campaign_impact\<close> raises ValueError when no data is loaded or the table
  has no \<^verbatim>\<open>campaign_id\<close> column. Otherwise it groups the sales amounts by campaign
  (sum, mean, count; groups in ascending key order), sorts the groups by total sales,
  largest first (groups of equal total keep their order here), and, when the group
  \<^verbatim>\<open>'No Campaign'\<close> exists, adds the column \<^verbatim>\<open>sales_lift_pct\<close>. The plotting between
  the two steps does not touch the table and is not part of the model. A row is a
  campaign id (a missing one was filled with \<^verbatim>\<open>'No Campaign'\<close> on loading) and a sales
  amount, a valid number.
\<close>

datatype sales_data = Not_loaded | No_campaign_column | Sales "(string \<times> rat) list"

record campaign_row =
  campaign :: string
  total_sales :: rat
  avg_sale :: rat
  num_transactions :: nat

record campaign_result =
  campaign_sales :: "campaign_row list"
  sales_lift_pct :: "fl list option"

definition campaign_agg :: "(string \<times> rat) list \<Rightarrow> campaign_row list" where
  "campaign_agg rows =
     sort_key (\<lambda>r. - total_sales r)
       (map (\<lambda>c. let amounts = map snd (filter (\<lambda>r. fst r = c) rows) in
                  \<lparr>campaign = c, total_sales = sum_list amounts,
                   avg_sale = sum_list amounts / of_nat (length amounts),
                   num_transactions = length amounts\<rparr>)
            (sort (remdups (map fst rows))))"

definition lift_column :: "rat \<Rightarrow> campaign_row list \<Rightarrow> fl list" where
  "lift_column baseline cs =
     map (\<lambda>r. fround2 (fmul (fdiv (fsub (Fin (avg_sale r)) (Fin baseline)) (Fin baseline))
                             (Fin 100))) cs"

definition marketing_campaign_impact :: "sales_data \<Rightarrow> py_error + campaign_result" where
  "marketing_campaign_impact data =
     (case data of
        Not_loaded \<Rightarrow> Inl ValueError
      | No_campaign_column \<Rightarrow> Inl ValueError
      | Sales rows \<Rightarrow>
          (let cs = campaign_agg rows in
           case find (\<lambda>r. campaign r = ''No Campaign'') cs of
             None \<Rightarrow> Inr \<lparr>campaign_sales = cs, sales_lift_pct = None\<rparr>
           | Some no_campaign_data \<Rightarrow>
               Inr \<lparr>campaign_sales = cs,
                    sales_lift_pct = Some (lift_column (avg_sale no_campaign_data) cs)\<rparr>))"

text \<open>
  The mean of a category as the specification names it, written from its words for
  comparison with the table the code builds: the sum of the sales amounts of the rows of
  that category over their number.
\<close>

definition group_mean :: "(string \<times> rat) list \<Rightarrow> string \<Rightarrow> rat" where
  "group_mean rows c =
     sum_list (map snd (filter (\<lambda>r. fst r = c) rows)) /
     of_nat (length (filter (\<lambda>r. fst r = c) rows))"

section \<open>Outlier capping (clean\_retail\_data.py)\<close>

text \<open>
  Step 5 of \<^verbatim>\<open>clean_retail_data\<close>. \<^verbatim>\<open>quantile\<close> interpolates linearly between the two
  order statistics around position \<^verbatim>\<open>q * (n - 1)\<close>; \<^verbatim>\<open>clip\<close> replaces a value below the
  lower bound by the lower bound and a value above the upper bound by the upper bound.
  By this step the numeric columns have no missing value left (step 2 filled them with the
  median), so a column is a list of numbers. On an empty column the quantiles are NaN, no
  value compares as an outlier and the column stays as it is.
\<close>

definition quantile :: "rat \<Rightarrow> rat list \<Rightarrow> rat" where
  "quantile q xs =
     (let s = sort xs;
          pos = q * of_nat (length s - 1);
          lo = nat \<lfloor>pos\<rfloor>;
          hi = nat \<lceil>pos\<rceil>
      in s ! lo + (pos - of_nat lo) * (s ! hi - s ! lo))"

definition lower_bound :: "rat list \<Rightarrow> rat" where
  "lower_bound xs =
     (let Q1 = quantile (1 / 4) xs; Q3 = quantile (3 / 4) xs; IQR = Q3 - Q1
      in Q1 - 3 / 2 * IQR)"

definition upper_bound :: "rat list \<Rightarrow> rat" where
  "upper_bound xs =
     (let Q1 = quantile (1 / 4) xs; Q3 = quantile (3 / 4) xs; IQR = Q3 - Q1
      in Q3 + 3 / 2 * IQR)"

definition clip :: "rat \<Rightarrow> rat \<Rightarrow> rat \<Rightarrow> rat" where
  "clip lower upper v = (if v < lower then lower else if upper < v then upper else v)"

definition cap_outliers :: "rat list \<Rightarrow> rat list" where
  "cap_outliers xs =
     (if xs = [] then xs
      else let outliers = length (filter (\<lambda>v. v < lower_bound xs \<or> upper_bound xs < v) xs)
           in if 0 < outliers then map (clip (lower_bound xs) (upper_bound xs)) xs else xs)"

record retail_frame =
  price :: "rat list option"
  quantity :: "rat list option"
  sales_amount :: "rat list option"

definition handle_outliers :: "retail_frame \<Rightarrow> retail_frame" where
  "handle_outliers df =
     \<lparr>price = map_option cap_outliers (price df),
      quantity = map_option cap_outliers (quantity df),
      sales_amount = map_option cap_outliers (sales_amount df)\<rparr>"

section \<open>Properties of the shipping buckets\<close>

lemma shipping_interval_positive:
  "0 < d \<Longrightarrow> \<exists>l. shipping_interval d = Some l"
  by (simp add: shipping_interval_def)

text \<open>
  C1. The spec's example and its rule for a zero value: the series [3, 10, 45, 0, 7]
  should be labelled Within 7, Within 30, After 30, Within 7, Within 7. The code labels
  the fourth entry (zero days) with no bucket at all.
\<close>

theorem shipping_interval_example:
  "shipping_interval_column [Some 3, Some 10, Some 45, Some 0, Some 7] =
     [Some Within_7_days, Some Within_30_days, Some After_30_days, None, Some Within_7_days]"
  by (simp add: shipping_interval_column_def shipping_interval_def)

text \<open>
  C7. The buckets should cover every non-negative number of days. In the code the value
  zero, which is non-negative, falls in no bucket.
\<close>

theorem shipping_interval_gap_at_zero:
  "shipping_interval 0 = None"
  by (simp add: shipping_interval_def)

section \<open>Properties of the derived stock metrics\<close>

lemma fsum_Fin: "fsum (map Fin xs) = Fin (sum_list xs)"
  by (induction xs) (simp_all add: fsum_def)

lemma length_shift [simp]: "length (shift xs) = length xs"
  by (simp add: shift_def)

lemma nth_shift:
  "i < length xs \<Longrightarrow> shift xs ! i = (if i = 0 then NaN else xs ! (i - 1))"
  by (cases i) (auto simp add: shift_def nth_butlast)

lemma length_rolling_mean [simp]: "length (rolling_mean w xs) = length xs"
  by (simp add: rolling_mean_def)

lemma rolling_window_Fin:
  "rolling_window w (map Fin xs) i = map Fin (drop (i + 1 - w) (take (i + 1) xs))"
  by (simp add: rolling_window_def take_map drop_map)

lemma filter_Fin: "filter (\<lambda>x. x \<noteq> NaN) (map Fin xs) = map Fin xs"
  by (induction xs) simp_all

lemma rolling_mean_Fin_nth:
  assumes "i < length xs" "0 < w"
  shows "rolling_mean w (map Fin xs) ! i =
           (if Suc i < w then NaN
            else Fin (sum_list (drop (Suc i - w) (take (Suc i) xs)) / of_nat w))"
proof -
  let ?win = "drop (Suc i - w) (take (Suc i) xs)"
  have len: "length ?win = Suc i - (Suc i - w)"
    using assms by simp
  have "rolling_mean w (map Fin xs) ! i =
          (if length ?win < w then NaN
           else fdiv (fsum (map Fin ?win)) (Fin (of_nat (length ?win))))"
    using assms by (simp add: rolling_mean_def rolling_window_Fin filter_Fin Let_def)
  also have "\<dots> = (if Suc i < w then NaN else Fin (sum_list ?win / of_nat w))"
  proof (cases "Suc i < w")
    case True
    then show ?thesis using len by simp
  next
    case False
    then have "length ?win = w" using len by simp
    then show ?thesis using False assms by (simp add: fsum_Fin)
  qed
  finally show ?thesis .
qed

lemma diff_Fin:
  "diff (map Fin ps) =
     map (\<lambda>j. if j = 0 then NaN else Fin (ps ! j - ps ! (j - 1))) [0..<length ps]"
  by (rule nth_equalityI) (auto simp add: diff_def nth_shift fsub_def)

lemma gain_series_Fin:
  "gain_series ps = map Fin (map (spec_gain ps) [0..<length ps])"
  by (rule nth_equalityI)
     (auto simp add: gain_series_def diff_Fin where_else_def spec_gain_def Let_def)

lemma loss_series_Fin:
  "loss_series ps = map Fin (map (spec_loss ps) [0..<length ps])"
  by (rule nth_equalityI)
     (auto simp add: loss_series_def diff_Fin where_else_def spec_loss_def Let_def)

lemma window_upt:
  "i < n \<Longrightarrow> drop (Suc i - w) (take (Suc i) (map f [0..<n])) = map f [Suc i - w..<Suc i]"
  by (simp add: take_map drop_map take_upt del: upt_Suc)

lemma length_gain_series [simp]: "length (gain_series ps) = length ps"
  by (simp add: gain_series_Fin)

lemma length_loss_series [simp]: "length (loss_series ps) = length ps"
  by (simp add: loss_series_Fin)

lemma length_rsi_series [simp]: "length (rsi_series ps) = length ps"
  by (simp add: rsi_series_def Let_def)

lemma spec_gain_nonneg: "0 \<le> spec_gain ps j"
  by (simp add: spec_gain_def)

lemma spec_loss_nonneg: "0 \<le> spec_loss ps j"
  by (simp add: spec_loss_def)

lemma spec_avg_gain_nonneg: "0 \<le> spec_avg_gain ps i"
  unfolding spec_avg_gain_def
  by (intro divide_nonneg_nonneg sum_list_nonneg) (auto simp add: spec_gain_nonneg)

lemma spec_avg_loss_nonneg: "0 \<le> spec_avg_loss ps i"
  unfolding spec_avg_loss_def
  by (intro divide_nonneg_nonneg sum_list_nonneg) (auto simp add: spec_loss_nonneg)

lemma rolling_mean_14_nth:
  assumes "i < length ps"
  shows "rolling_mean 14 (map Fin (map f [0..<length ps])) ! i =
           (if i < 13 then NaN else Fin (sum_list (map f [i - 13..<Suc i]) / 14))"
proof -
  have "rolling_mean 14 (map Fin (map f [0..<length ps])) ! i =
          (if Suc i < 14 then NaN
           else Fin (sum_list (drop (Suc i - 14) (take (Suc i) (map f [0..<length ps])))
                     / of_nat 14))"
    using assms by (intro rolling_mean_Fin_nth) simp_all
  also have "drop (Suc i - 14) (take (Suc i) (map f [0..<length ps])) =
               map f [Suc i - 14..<Suc i]"
    using assms by (rule window_upt)
  finally show ?thesis
    by (cases "i < 13") (simp_all del: upt_Suc)
qed

lemma avg_gain_nth:
  assumes "i < length ps"
  shows "rolling_mean 14 (gain_series ps) ! i =
           (if i < 13 then NaN else Fin (spec_avg_gain ps i))"
  unfolding gain_series_Fin spec_avg_gain_def using assms by (rule rolling_mean_14_nth)

lemma avg_loss_nth:
  assumes "i < length ps"
  shows "rolling_mean 14 (loss_series ps) ! i =
           (if i < 13 then NaN else Fin (spec_avg_loss ps i))"
  unfolding loss_series_Fin spec_avg_loss_def using assms by (rule rolling_mean_14_nth)

lemma rsi_value:
  assumes "0 \<le> g" "0 \<le> l"
  shows "fsub (Fin 100) (fdiv (Fin 100) (fadd (Fin 1) (fdiv (Fin g) (Fin l)))) =
           (if l = 0 then (if g = 0 then NaN else Fin 100)
            else Fin (100 - 100 / (1 + g / l)))"
proof (cases "l = 0")
  case True
  then show ?thesis using assms by (auto simp add: inf_of_sign_def fsub_def)
next
  case False
  then have "0 < l" using assms by simp
  then have "0 \<le> g / l" using assms by simp
  then have "1 + g / l \<noteq> 0" by linarith
  then show ?thesis using False by (simp add: fsub_def)
qed

lemma rsi_series_nth:
  assumes "i < length ps"
  shows "rsi_series ps ! i =
           (if i < 13 then NaN
            else if spec_avg_loss ps i = 0
                 then (if spec_avg_gain ps i = 0 then NaN else Fin 100)
                 else Fin (100 - 100 / (1 + spec_avg_gain ps i / spec_avg_loss ps i)))"
proof -
  have nth: "rsi_series ps ! i =
          fsub (Fin 100) (fdiv (Fin 100) (fadd (Fin 1)
            (fdiv (rolling_mean 14 (gain_series ps) ! i)
                  (rolling_mean 14 (loss_series ps) ! i))))"
    using assms by (simp add: rsi_series_def Let_def)
  show ?thesis
  proof (cases "i < 13")
    case True
    then show ?thesis using assms
      by (simp add: nth avg_gain_nth avg_loss_nth fsub_def)
  next
    case False
    then have "rsi_series ps ! i =
          fsub (Fin 100) (fdiv (Fin 100) (fadd (Fin 1)
            (fdiv (Fin (spec_avg_gain ps i)) (Fin (spec_avg_loss ps i)))))"
      using assms by (simp only: nth avg_gain_nth avg_loss_nth if_False)
    also have "\<dots> = (if spec_avg_loss ps i = 0
                 then (if spec_avg_gain ps i = 0 then NaN else Fin 100)
                 else Fin (100 - 100 / (1 + spec_avg_gain ps i / spec_avg_loss ps i)))"
      by (rule rsi_value [OF spec_avg_gain_nonneg spec_avg_loss_nonneg])
    finally show ?thesis using False by simp
  qed
qed

lemma length_ma_series [simp]: "length (ma_series w ps) = length ps"
  by (simp add: ma_series_def)

lemma ma_series_nth:
  assumes "i < length ps" "0 < w"
  shows "ma_series w ps ! i =
           (if Suc i < w then NaN
            else Fin (sum_list (drop (Suc i - w) (take (Suc i) ps)) / of_nat w))"
  unfolding ma_series_def using assms by (rule rolling_mean_Fin_nth)

lemma sum_list_replicate_rat: "sum_list (replicate k (c::rat)) = of_nat k * c"
  by (induction k) (simp_all add: algebra_simps)

text \<open>
  C8. On a constant series of prices the moving average over \<open>w\<close> rows is that constant
  at every row where it is defined (from row \<open>w\<close> on), and undefined before.
\<close>

theorem ma_constant:
  assumes "0 < w" "i < n"
  shows "ma_series w (replicate n c) ! i = (if Suc i < w then NaN else Fin c)"
proof (cases "Suc i < w")
  case True
  then show ?thesis using assms by (simp add: ma_series_nth)
next
  case False
  have "min (Suc i) n - (Suc i - w) = w"
    using assms False by simp
  then have "drop (Suc i - w) (take (Suc i) (replicate n c)) = replicate w c"
    by (simp only: take_replicate drop_replicate)
  then show ?thesis using assms False
    by (simp add: ma_series_nth sum_list_replicate_rat)
qed

theorem ma_constant_witness:
  "(0::nat) < 3 \<and> (4::nat) < 5 \<and> ma_series 3 (replicate 5 7) ! 4 = Fin 7 \<and>
   ma_series 3 (replicate 5 7) ! 1 = NaN"
  using ma_constant [of 3 4 5 7] ma_constant [of 3 1 5 7] by simp

lemma sum_list_nonneg_zero_iff:
  fixes xs :: "rat list"
  assumes "\<And>x. x \<in> set xs \<Longrightarrow> 0 \<le> x"
  shows "sum_list xs = 0 \<longleftrightarrow> (\<forall>x\<in>set xs. x = 0)"
  using assms by (simp add: sum_list_nonneg_eq_0_iff)

lemma spec_avg_gain_zero_iff:
  "spec_avg_gain ps i = 0 \<longleftrightarrow> (\<forall>j\<in>set [i - 13..<Suc i]. spec_gain ps j = 0)"
proof -
  have "sum_list (map (spec_gain ps) [i - 13..<Suc i]) = 0 \<longleftrightarrow>
          (\<forall>x\<in>set (map (spec_gain ps) [i - 13..<Suc i]). x = 0)"
    by (rule sum_list_nonneg_zero_iff) (auto simp add: spec_gain_nonneg)
  then show ?thesis by (simp add: spec_avg_gain_def del: upt_Suc)
qed

lemma spec_avg_loss_zero_iff:
  "spec_avg_loss ps i = 0 \<longleftrightarrow> (\<forall>j\<in>set [i - 13..<Suc i]. spec_loss ps j = 0)"
proof -
  have "sum_list (map (spec_loss ps) [i - 13..<Suc i]) = 0 \<longleftrightarrow>
          (\<forall>x\<in>set (map (spec_loss ps) [i - 13..<Suc i]). x = 0)"
    by (rule sum_list_nonneg_zero_iff) (auto simp add: spec_loss_nonneg)
  then show ?thesis by (simp add: spec_avg_loss_def del: upt_Suc)
qed

lemma no_change_iff:
  "spec_gain ps j = 0 \<and> spec_loss ps j = 0 \<longleftrightarrow> (0 < j \<longrightarrow> ps ! j = ps ! (j - 1))"
  by (auto simp add: spec_gain_def spec_loss_def)

lemma rsi_nan_iff:
  assumes "i < length ps"
  shows "rsi_series ps ! i = NaN \<longleftrightarrow>
           i < 13 \<or> (\<forall>j\<in>set [i - 13..<Suc i]. 0 < j \<longrightarrow> ps ! j = ps ! (j - 1))"
proof -
  have "rsi_series ps ! i = NaN \<longleftrightarrow>
          i < 13 \<or> (spec_avg_loss ps i = 0 \<and> spec_avg_gain ps i = 0)"
    using assms by (simp add: rsi_series_nth)
  also have "spec_avg_loss ps i = 0 \<and> spec_avg_gain ps i = 0 \<longleftrightarrow>
          (\<forall>j\<in>set [i - 13..<Suc i]. spec_gain ps j = 0 \<and> spec_loss ps j = 0)"
    unfolding spec_avg_gain_zero_iff spec_avg_loss_zero_iff by blast
  finally show ?thesis unfolding no_change_iff .
qed

text \<open>
  C2, as the code has it. At row \<open>i\<close> of a ticker's price series the 20-row and 50-row
  moving averages are undefined exactly at the first 19 and 49 rows. The RSI is undefined
  at the first 13 rows; from row 14 on it is undefined exactly when the price did not
  change anywhere in the trailing 14-row window, where average gain and average loss are
  both zero and their quotient is NaN.
\<close>

theorem window_series_defined:
  assumes "i < length ps"
  shows "(ma_series 20 ps ! i = NaN \<longleftrightarrow> i < 19) \<and>
         (ma_series 50 ps ! i = NaN \<longleftrightarrow> i < 49) \<and>
         (rsi_series ps ! i = NaN \<longleftrightarrow>
            i < 13 \<or> (\<forall>j\<in>set [i - 13..<Suc i]. 0 < j \<longrightarrow> ps ! j = ps ! (j - 1)))"
proof (intro conjI)
  show "ma_series 20 ps ! i = NaN \<longleftrightarrow> i < 19"
    using assms by (auto simp add: ma_series_nth)
  show "ma_series 50 ps ! i = NaN \<longleftrightarrow> i < 49"
    using assms by (auto simp add: ma_series_nth)
  show "rsi_series ps ! i = NaN \<longleftrightarrow>
            i < 13 \<or> (\<forall>j\<in>set [i - 13..<Suc i]. 0 < j \<longrightarrow> ps ! j = ps ! (j - 1))"
    using assms by (rule rsi_nan_iff)
qed

text \<open>
  C2 as stated fails: on twenty equal prices the RSI is still undefined at row 14 (index
  13) and at row 20.
\<close>

theorem rsi_constant_undefined:
  "13 < length (replicate 20 (5::rat)) \<and> rsi_series (replicate 20 5) ! 13 = NaN \<and>
   rsi_series (replicate 20 5) ! 19 = NaN"
  by code_simp

text \<open>
  C3. At a row with a full window the averages the code computes are the means of the
  gains and of the losses over the trailing fourteen rows. Where the average loss is zero
  and the RSI is defined, the RSI is 100 (the quotient is infinite and \<open>100 / (1 + inf)\<close>
  is zero); where the average loss is not zero, the RSI is
  \<open>100 - 100 / (1 + avg_gain / avg_loss)\<close>.
\<close>

theorem rsi_formula:
  assumes "13 \<le> i" "i < length ps"
  shows "rolling_mean 14 (gain_series ps) ! i = Fin (spec_avg_gain ps i) \<and>
         rolling_mean 14 (loss_series ps) ! i = Fin (spec_avg_loss ps i) \<and>
         (spec_avg_loss ps i = 0 \<and> rsi_series ps ! i \<noteq> NaN \<longrightarrow>
            rsi_series ps ! i = Fin 100) \<and>
         (spec_avg_loss ps i \<noteq> 0 \<longrightarrow>
            rsi_series ps ! i =
              Fin (100 - 100 / (1 + spec_avg_gain ps i / spec_avg_loss ps i)))"
  using assms by (simp add: avg_gain_nth avg_loss_nth rsi_series_nth)




theorem window_series_defined_witness:
  "(19::nat) < length [1, 2, 3, 4, 5, 6, 7, 8, 9, 10, 11, 12, 13, 14, 15, 16, 17, 18, 19, 20 :: rat] \<and>
   ma_series 20 [1, 2, 3, 4, 5, 6, 7, 8, 9, 10, 11, 12, 13, 14, 15, 16, 17, 18, 19, 20] ! 19 \<noteq> NaN \<and>
   ma_series 50 [1, 2, 3, 4, 5, 6, 7, 8, 9, 10, 11, 12, 13, 14, 15, 16, 17, 18, 19, 20] ! 19 = NaN"
  using window_series_defined
          [of 19 "[1, 2, 3, 4, 5, 6, 7, 8, 9, 10, 11, 12, 13, 14, 15, 16, 17, 18, 19, 20]"]
  by simp

theorem rsi_formula_witness:
  "rsi_series [1, 2, 3, 4, 5, 6, 7, 8, 9, 10, 11, 12, 13, 14, 15, 16] ! 13 = Fin 100 \<and>
   rsi_series [1, 2, 3, 4, 5, 6, 7, 6, 5, 4, 5, 6, 7, 8, 9, 10] ! 13 = Fin (1000 / 13)"
proof -
  let ?up = "[1, 2, 3, 4, 5, 6, 7, 8, 9, 10, 11, 12, 13, 14, 15, 16] :: rat list"
  let ?mixed = "[1, 2, 3, 4, 5, 6, 7, 6, 5, 4, 5, 6, 7, 8, 9, 10] :: rat list"
  have l0: "spec_avg_loss ?up 13 = 0" by code_simp
  have d0: "rsi_series ?up ! 13 \<noteq> NaN" by code_simp
  have g1: "spec_avg_gain ?mixed 13 = 10 / 14" by code_simp
  have l1: "spec_avg_loss ?mixed 13 = 3 / 14" by code_simp
  have len: "(13::nat) \<le> 13" "13 < length ?up" "13 < length ?mixed" by simp_all
  show ?thesis
    using rsi_formula [OF len(1) len(2)] rsi_formula [OF len(1) len(3)] l0 d0 g1 l1
    by simp
qed


lemma group_metrics_Ticker:
  assumes "m \<in> set (group_metrics grp)"
  shows "\<exists>r\<in>set grp. Ticker m = Ticker r"
proof -
  from assms obtain r d a b s where
    z: "(r, d, a, b, s) \<in> set (zip (sort_key Date grp)
        (zip (daily_return_series (map Price (sort_key Date grp)))
          (zip (ma_series 20 (map Price (sort_key Date grp)))
            (zip (ma_series 50 (map Price (sort_key Date grp)))
                 (rsi_series (map Price (sort_key Date grp)))))))"
    and m: "m = \<lparr>Ticker = Ticker r, Date = Date r, Price = Price r,
                 Daily_Return = d, MA20 = a, MA50 = b, RSI = s\<rparr>"
    by (auto simp add: group_metrics_def Let_def)
  from z have "r \<in> set (sort_key Date grp)" by (rule set_zip_leftD)
  then have "r \<in> set grp" by simp
  then show ?thesis using m by auto
qed

lemma group_metrics_Nil [simp]: "group_metrics [] = []"
  by (simp add: group_metrics_def)

lemma filter_group_metrics:
  "filter (\<lambda>m. Ticker m = k) (group_metrics (filter (\<lambda>r. Ticker r = t) df)) =
     (if t = k then group_metrics (filter (\<lambda>r. Ticker r = k) df) else [])"
proof (cases "t = k")
  case True
  have "\<forall>m\<in>set (group_metrics (filter (\<lambda>r. Ticker r = k) df)). Ticker m = k"
    using group_metrics_Ticker by fastforce
  then show ?thesis using True by simp
next
  case False
  have "\<forall>m\<in>set (group_metrics (filter (\<lambda>r. Ticker r = t) df)). Ticker m \<noteq> k"
    using group_metrics_Ticker False by fastforce
  then show ?thesis using False by (simp add: filter_empty_conv)
qed

lemma filter_concat_distinct:
  assumes "distinct ks"
    and "\<And>t. t \<in> set ks \<Longrightarrow> filter P (f t) = (if t = k then f k else [])"
  shows "filter P (concat (map f ks)) = (if k \<in> set ks then f k else [])"
  using assms by (induction ks) auto

lemma calculate_metrics_Inr:
  assumes "df \<noteq> []"
  shows "calculate_metrics df =
           Inr (concat (map (\<lambda>t. group_metrics (filter (\<lambda>r. Ticker r = t) df))
                            (sort (remdups (map Ticker df)))))"
proof -
  have "sort (remdups (map Ticker df)) \<noteq> []"
    using assms by (metis length_0_conv length_sort list.map_disc_iff remdups_eq_nil_iff)
  then show ?thesis
    by (simp add: calculate_metrics_def ticker_groups_def Let_def comp_def)
qed

lemma calculate_metrics_Nil: "calculate_metrics [] = Inl ValueError"
  by (simp add: calculate_metrics_def ticker_groups_def)

lemma filter_calculate_metrics:
  assumes "calculate_metrics df = Inr out"
  shows "filter (\<lambda>m. Ticker m = k) out = group_metrics (filter (\<lambda>r. Ticker r = k) df)"
proof -
  have ne: "df \<noteq> []" using assms calculate_metrics_Nil by auto
  let ?ks = "sort (remdups (map Ticker df))"
  let ?f = "\<lambda>t. group_metrics (filter (\<lambda>r. Ticker r = t) df)"
  have out: "out = concat (map ?f ?ks)"
    using assms calculate_metrics_Inr [OF ne] by simp
  have "filter (\<lambda>m. Ticker m = k) (concat (map ?f ?ks)) = (if k \<in> set ?ks then ?f k else [])"
    by (rule filter_concat_distinct) (simp_all add: filter_group_metrics)
  moreover have "k \<notin> set ?ks \<Longrightarrow> filter (\<lambda>r. Ticker r = k) df = []"
    by (auto simp add: filter_empty_conv)
  ultimately show ?thesis using out by auto
qed

text \<open>
  C9. When two non-empty tables have the same rows for ticker \<open>k\<close>, in the same order,
  \<^verbatim>\<open>calculate_metrics\<close> returns on both, and the rows of \<open>k\<close> in the two results are the
  same, whatever the other tickers' rows are.
\<close>

theorem subject_isolation:
  assumes "filter (\<lambda>r. Ticker r = k) df1 = filter (\<lambda>r. Ticker r = k) df2"
    and "df1 \<noteq> []" and "df2 \<noteq> []"
  shows "\<exists>out1 out2. calculate_metrics df1 = Inr out1 \<and> calculate_metrics df2 = Inr out2 \<and>
           filter (\<lambda>m. Ticker m = k) out1 = filter (\<lambda>m. Ticker m = k) out2"
proof -
  obtain out1 out2 where o: "calculate_metrics df1 = Inr out1" "calculate_metrics df2 = Inr out2"
    using assms(2,3) calculate_metrics_Inr by blast
  then have "filter (\<lambda>m. Ticker m = k) out1 = filter (\<lambda>m. Ticker m = k) out2"
    using assms(1) by (simp add: filter_calculate_metrics)
  then show ?thesis using o by blast
qed

theorem subject_isolation_witness:
  "\<exists>out1 out2.
     calculate_metrics [\<lparr>Ticker = ''A'', Date = 2, Price = 5\<rparr>, \<lparr>Ticker = ''B'', Date = 1, Price = 9\<rparr>,
                        \<lparr>Ticker = ''A'', Date = 1, Price = 4\<rparr>] = Inr out1 \<and>
     calculate_metrics [\<lparr>Ticker = ''C'', Date = 7, Price = 1\<rparr>, \<lparr>Ticker = ''A'', Date = 2, Price = 5\<rparr>,
                        \<lparr>Ticker = ''A'', Date = 1, Price = 4\<rparr>] = Inr out2 \<and>
     filter (\<lambda>m. Ticker m = ''A'') out1 = filter (\<lambda>m. Ticker m = ''A'') out2"
  using subject_isolation [of "''A''"
      "[\<lparr>Ticker = ''A'', Date = 2, Price = 5\<rparr>, \<lparr>Ticker = ''B'', Date = 1, Price = 9\<rparr>,
        \<lparr>Ticker = ''A'', Date = 1, Price = 4\<rparr>]"
      "[\<lparr>Ticker = ''C'', Date = 7, Price = 1\<rparr>, \<lparr>Ticker = ''A'', Date = 2, Price = 5\<rparr>,
        \<lparr>Ticker = ''A'', Date = 1, Price = 4\<rparr>]"]
  by simp

section \<open>Properties of the campaign lift\<close>

lemma campaign_agg_set:
  "set (campaign_agg rows) =
     (\<lambda>c. \<lparr>campaign = c,
            total_sales = sum_list (map snd (filter (\<lambda>r. fst r = c) rows)),
            avg_sale = group_mean rows c,
            num_transactions = length (filter (\<lambda>r. fst r = c) rows)\<rparr>) ` fst ` set rows"
  by (auto simp add: campaign_agg_def group_mean_def Let_def)


lemma campaign_agg_campaigns:
  "campaign ` set (campaign_agg rows) = fst ` set rows"
  by (force simp add: campaign_agg_set)

lemma find_no_campaign_None:
  "find (\<lambda>r. campaign r = c) (campaign_agg rows) = None \<longleftrightarrow> c \<notin> fst ` set rows"
  unfolding find_None_iff campaign_agg_campaigns [symmetric] by auto


lemma rint_0 [simp]: "rint 0 = 0"
  by (simp add: rint_def)


text \<open>
  C6. When no row has the campaign \<^verbatim>\<open>'No Campaign'\<close>, \<^verbatim>\<open>marketing_campaign_impact\<close>
  raises nothing and returns the table of groups without a lift column; the table has one
  row per campaign of the input, with the sum, the mean and the count of its sales amounts.
\<close>

theorem lift_absent:
  assumes "''No Campaign'' \<notin> fst ` set rows"
  shows "marketing_campaign_impact (Sales rows) =
           Inr \<lparr>campaign_sales = campaign_agg rows, sales_lift_pct = None\<rparr> \<and>
         campaign ` set (campaign_agg rows) = fst ` set rows \<and>
         (\<forall>r\<in>set (campaign_agg rows).
            total_sales r = sum_list (map snd (filter (\<lambda>x. fst x = campaign r) rows)) \<and>
            avg_sale r = group_mean rows (campaign r) \<and>
            num_transactions r = length (filter (\<lambda>x. fst x = campaign r) rows))"
proof (intro conjI)
  have "find (\<lambda>r. campaign r = ''No Campaign'') (campaign_agg rows) = None"
    using assms by (simp only: find_no_campaign_None not_False_eq_True)
  then show "marketing_campaign_impact (Sales rows) =
           Inr \<lparr>campaign_sales = campaign_agg rows, sales_lift_pct = None\<rparr>"
    by (simp add: marketing_campaign_impact_def Let_def)
  show "campaign ` set (campaign_agg rows) = fst ` set rows"
    by (rule campaign_agg_campaigns)
  show "\<forall>r\<in>set (campaign_agg rows).
            total_sales r = sum_list (map snd (filter (\<lambda>x. fst x = campaign r) rows)) \<and>
            avg_sale r = group_mean rows (campaign r) \<and>
            num_transactions r = length (filter (\<lambda>x. fst x = campaign r) rows)"
    by (auto simp add: campaign_agg_set)
qed

theorem lift_absent_witness:
  "marketing_campaign_impact (Sales [(''A'', 4), (''B'', 1), (''A'', 2)]) =
     Inr \<lparr>campaign_sales =
            [\<lparr>campaign = ''A'', total_sales = 6, avg_sale = 3, num_transactions = 2\<rparr>,
             \<lparr>campaign = ''B'', total_sales = 1, avg_sale = 1, num_transactions = 1\<rparr>],
          sales_lift_pct = None\<rparr>"
proof -
  have agg: "campaign_agg [(''A'', 4), (''B'', 1), (''A'', 2)] =
            [\<lparr>campaign = ''A'', total_sales = 6, avg_sale = 3, num_transactions = 2\<rparr>,
             \<lparr>campaign = ''B'', total_sales = 1, avg_sale = 1, num_transactions = 1\<rparr>]"
    by code_simp
  have "''No Campaign'' \<notin> fst ` set [(''A'', 4::rat), (''B'', 1), (''A'', 2)]"
    by simp
  from lift_absent [OF this] show ?thesis by (simp only: agg)
qed




section \<open>Properties of the outlier capping\<close>

lemma interp_bounds:
  fixes s :: "rat list" and x :: rat
  assumes "sorted s" "0 \<le> x" "x \<le> of_nat (length s - 1)" "s \<noteq> []"
  shows "s ! nat \<lfloor>x\<rfloor> \<le> s ! nat \<lfloor>x\<rfloor> + (x - of_nat (nat \<lfloor>x\<rfloor>)) * (s ! nat \<lceil>x\<rceil> - s ! nat \<lfloor>x\<rfloor>)"
    and "s ! nat \<lfloor>x\<rfloor> + (x - of_nat (nat \<lfloor>x\<rfloor>)) * (s ! nat \<lceil>x\<rceil> - s ! nat \<lfloor>x\<rfloor>) \<le> s ! nat \<lceil>x\<rceil>"
    and "nat \<lceil>x\<rceil> < length s"
proof -
  have fl0: "0 \<le> \<lfloor>x\<rfloor>" using assms(2) by simp
  have lo: "of_nat (nat \<lfloor>x\<rfloor>) = (of_int \<lfloor>x\<rfloor> :: rat)" using fl0 by simp
  have "\<lceil>x\<rceil> \<le> int (length s - 1)"
    using assms(3) by (simp add: ceiling_le_iff)
  then show hi: "nat \<lceil>x\<rceil> < length s" using assms(4) by (cases s) auto
  have "\<lfloor>x\<rfloor> \<le> \<lceil>x\<rceil>" by (rule floor_le_ceiling)
  then have "nat \<lfloor>x\<rfloor> \<le> nat \<lceil>x\<rceil>" by (rule nat_mono)
  then have d: "0 \<le> s ! nat \<lceil>x\<rceil> - s ! nat \<lfloor>x\<rfloor>"
    using assms(1) hi by (simp add: sorted_nth_mono)
  have f0: "0 \<le> x - of_nat (nat \<lfloor>x\<rfloor>)" unfolding lo by simp
  have f1: "x - of_nat (nat \<lfloor>x\<rfloor>) \<le> 1" unfolding lo by linarith
  show "s ! nat \<lfloor>x\<rfloor> \<le> s ! nat \<lfloor>x\<rfloor> + (x - of_nat (nat \<lfloor>x\<rfloor>)) * (s ! nat \<lceil>x\<rceil> - s ! nat \<lfloor>x\<rfloor>)"
    using f0 d by simp
  have "(x - of_nat (nat \<lfloor>x\<rfloor>)) * (s ! nat \<lceil>x\<rceil> - s ! nat \<lfloor>x\<rfloor>) \<le> 1 * (s ! nat \<lceil>x\<rceil> - s ! nat \<lfloor>x\<rfloor>)"
    using f1 d by (rule mult_right_mono)
  then show "s ! nat \<lfloor>x\<rfloor> + (x - of_nat (nat \<lfloor>x\<rfloor>)) * (s ! nat \<lceil>x\<rceil> - s ! nat \<lfloor>x\<rfloor>) \<le> s ! nat \<lceil>x\<rceil>"
    by simp
qed

lemma interp_mono:
  fixes s :: "rat list" and x y :: rat
  assumes "sorted s" "0 \<le> x" "x \<le> y" "y \<le> of_nat (length s - 1)" "s \<noteq> []"
  shows "s ! nat \<lfloor>x\<rfloor> + (x - of_nat (nat \<lfloor>x\<rfloor>)) * (s ! nat \<lceil>x\<rceil> - s ! nat \<lfloor>x\<rfloor>)
       \<le> s ! nat \<lfloor>y\<rfloor> + (y - of_nat (nat \<lfloor>y\<rfloor>)) * (s ! nat \<lceil>y\<rceil> - s ! nat \<lfloor>y\<rfloor>)"
proof (cases "\<lceil>x\<rceil> \<le> \<lfloor>y\<rfloor>")
  case True
  have xb: "x \<le> of_nat (length s - 1)" and y0: "0 \<le> y" using assms by simp_all
  have "nat \<lfloor>y\<rfloor> \<le> nat \<lceil>y\<rceil>" using floor_le_ceiling [of y] by (rule nat_mono)
  then have "nat \<lfloor>y\<rfloor> < length s"
    using interp_bounds(3) [OF assms(1) y0 assms(4,5)] by simp
  then have "s ! nat \<lceil>x\<rceil> \<le> s ! nat \<lfloor>y\<rfloor>"
    using True assms(1) by (simp add: sorted_nth_mono)
  then show ?thesis
    using interp_bounds(2) [OF assms(1,2) xb assms(5)]
          interp_bounds(1) [OF assms(1) y0 assms(4,5)]
    by linarith
next
  case False
  have y0: "0 \<le> y" using assms by simp
  have "\<lfloor>x\<rfloor> \<le> \<lfloor>y\<rfloor>" using assms(3) by (rule floor_mono)
  moreover have "\<lceil>x\<rceil> \<le> \<lfloor>x\<rfloor> + 1" using ceiling_diff_floor_le_1 [of x] by simp
  ultimately have fl: "\<lfloor>y\<rfloor> = \<lfloor>x\<rfloor>" and cx: "\<lceil>x\<rceil> = \<lfloor>x\<rfloor> + 1"
    using False by simp_all
  have "\<lceil>x\<rceil> \<le> \<lceil>y\<rceil>" using assms(3) by (rule ceiling_mono)
  moreover have "\<lceil>y\<rceil> \<le> \<lfloor>y\<rfloor> + 1" using ceiling_diff_floor_le_1 [of y] by simp
  ultimately have cy: "\<lceil>y\<rceil> = \<lceil>x\<rceil>" using fl cx by simp
  have hi: "nat \<lceil>x\<rceil> < length s"
    using interp_bounds(3) [OF assms(1) y0 assms(4,5)] cy by simp
  have "nat \<lfloor>x\<rfloor> \<le> nat \<lceil>x\<rceil>" using cx by simp
  then have d: "0 \<le> s ! nat \<lceil>x\<rceil> - s ! nat \<lfloor>x\<rfloor>"
    using assms(1) hi by (simp add: sorted_nth_mono)
  have "(x - of_nat (nat \<lfloor>x\<rfloor>)) * (s ! nat \<lceil>x\<rceil> - s ! nat \<lfloor>x\<rfloor>)
        \<le> (y - of_nat (nat \<lfloor>x\<rfloor>)) * (s ! nat \<lceil>x\<rceil> - s ! nat \<lfloor>x\<rfloor>)"
    using assms(3) d by (intro mult_right_mono) simp_all
  then show ?thesis unfolding fl cy by simp
qed

lemma quantile_mono:
  assumes "xs \<noteq> []" "0 \<le> p" "p \<le> q" "q \<le> 1"
  shows "quantile p xs \<le> quantile q xs"
proof -
  let ?s = "sort xs"
  let ?m = "of_nat (length ?s - 1) :: rat"
  have m0: "0 \<le> ?m" by simp
  have 1: "0 \<le> p * ?m" using assms(2) m0 by (rule mult_nonneg_nonneg)
  have 2: "p * ?m \<le> q * ?m" using assms(3) m0 by (rule mult_right_mono)
  have "q * ?m \<le> 1 * ?m" using assms(4) m0 by (rule mult_right_mono)
  then have 3: "q * ?m \<le> ?m" by simp
  have 4: "?s \<noteq> []" using assms(1) by (metis length_0_conv length_sort)
  show ?thesis
    unfolding quantile_def Let_def
    using interp_mono [OF sorted_sort 1 2 3 4] .
qed

lemma bounds_ordered:
  assumes "xs \<noteq> []"
  shows "lower_bound xs \<le> upper_bound xs"
proof -
  have "quantile (1 / 4) xs \<le> quantile (3 / 4) xs"
    using assms by (rule quantile_mono) simp_all
  then have "0 \<le> 3 / 2 * (quantile (3 / 4) xs - quantile (1 / 4) xs)"
    by simp
  then show ?thesis
    unfolding lower_bound_def upper_bound_def Let_def
    using \<open>quantile (1 / 4) xs \<le> quantile (3 / 4) xs\<close> by linarith
qed

lemma clip_bounds:
  "lower \<le> upper \<Longrightarrow> lower \<le> clip lower upper v \<and> clip lower upper v \<le> upper"
  by (simp add: clip_def)

lemma clip_inside:
  "lower \<le> v \<Longrightarrow> v \<le> upper \<Longrightarrow> clip lower upper v = v"
  by (simp add: clip_def)

lemma length_cap_outliers [simp]: "length (cap_outliers xs) = length xs"
  by (simp add: cap_outliers_def Let_def)

lemma cap_outliers_nth:
  assumes "i < length xs"
  shows "lower_bound xs \<le> cap_outliers xs ! i \<and> cap_outliers xs ! i \<le> upper_bound xs \<and>
         (lower_bound xs \<le> xs ! i \<and> xs ! i \<le> upper_bound xs \<longrightarrow> cap_outliers xs ! i = xs ! i)"
proof (cases "filter (\<lambda>v. v < lower_bound xs \<or> upper_bound xs < v) xs = []")
  case True
  then have "\<not> (xs ! i < lower_bound xs \<or> upper_bound xs < xs ! i)"
    using assms by (simp add: filter_empty_conv)
  moreover have "cap_outliers xs = xs"
    using True by (simp add: cap_outliers_def Let_def)
  ultimately show ?thesis by simp
next
  case False
  have ne: "xs \<noteq> []" using assms by auto
  have "cap_outliers xs = map (clip (lower_bound xs) (upper_bound xs)) xs"
    using False ne by (simp add: cap_outliers_def Let_def)
  then show ?thesis
    using assms clip_bounds [OF bounds_ordered [OF ne]] clip_inside by simp
qed

text \<open>
  C10. For each of the columns price, quantity and sales\_amount that the table has, the
  capping step returns a column of the same length in which every value lies between the
  lower and the upper bound computed from the column before capping, and every value that
  was already between them is unchanged.
\<close>

theorem outlier_capping:
  assumes "col \<in> {price, quantity, sales_amount}" and "col df = Some xs"
  shows "\<exists>ys. col (handle_outliers df) = Some ys \<and> length ys = length xs \<and>
           (\<forall>i<length xs.
              lower_bound xs \<le> ys ! i \<and> ys ! i \<le> upper_bound xs \<and>
              (lower_bound xs \<le> xs ! i \<and> xs ! i \<le> upper_bound xs \<longrightarrow> ys ! i = xs ! i))"
proof -
  have "col (handle_outliers df) = Some (cap_outliers xs)"
    using assms by (auto simp add: handle_outliers_def)
  then show ?thesis using cap_outliers_nth by simp
qed

theorem outlier_capping_witness:
  "price \<lparr>price = Some [1, 2, 3, 4, 100], quantity = None, sales_amount = Some [5, 5]\<rparr>
     = Some [1, 2, 3, 4, 100] \<and>
   (\<exists>ys. price (handle_outliers
              \<lparr>price = Some [1, 2, 3, 4, 100], quantity = None, sales_amount = Some [5, 5]\<rparr>)
            = Some ys \<and> length ys = 5 \<and> ys ! 4 \<le> upper_bound [1, 2, 3, 4, 100])"
proof -
  let ?df = "\<lparr>price = Some [1, 2, 3, 4, 100], quantity = None, sales_amount = Some [5, 5]\<rparr>"
  have c: "price \<in> {price, quantity, sales_amount :: retail_frame \<Rightarrow> rat list option}" by simp
  have p: "price ?df = Some [1, 2, 3, 4, 100]" by simp
  from outlier_capping [OF c p] show ?thesis by auto
qed

end
